theory Spec2Isabelle
  imports
    Main
    "HOL-Library.AList"
    "HOL-Library.Char_ord"
    "HOL-Library.List_Lexorder"
    "HOL-Library.Multiset"
begin

section \<open>Python values: exceptions, strings, integers\<close>

text \<open>
  The managers of \<^verbatim>\<open>astranet_cli\<close> are Python classes that read and write a few
  files and drive external tools through \<^verbatim>\<open>SystemUtils.run_command\<close>. A raise is a
  value \<open>Inl e\<close> of a sum type, a normal return is \<open>Inr v\<close>.

  File names and tool output are modelled as ASCII strings (\<open>char list\<close>).
\<close>

datatype exn =
    ValueError | IndexError | AttributeError | TypeError
  | OSError | FileNotFoundError | JSONDecodeError | UnicodeDecodeError
  | KeyboardInterrupt

text \<open>\<^verbatim>\<open>except Exception\<close> catches everything but \<^verbatim>\<open>KeyboardInterrupt\<close>
  (a \<^verbatim>\<open>BaseException\<close>).\<close>

fun is_Exception :: "exn \<Rightarrow> bool" where
  "is_Exception KeyboardInterrupt = False"
| "is_Exception _ = True"

subsection \<open>\<^verbatim>\<open>str.strip\<close>, \<^verbatim>\<open>str.split\<close>, \<^verbatim>\<open>str.isdigit\<close>, \<^verbatim>\<open>in\<close>\<close>

definition is_space :: "char \<Rightarrow> bool" where
  "is_space c = ((of_char c :: nat) \<in> {9, 10, 11, 12, 13, 28, 29, 30, 31, 32})"

definition strip :: "string \<Rightarrow> string" where
  "strip s = rev (dropWhile is_space (rev (dropWhile is_space s)))"

fun split_on :: "char \<Rightarrow> string \<Rightarrow> string list" where
  "split_on c [] = [[]]"
| "split_on c (x # xs) =
     (if x = c then [] # split_on c xs
      else (case split_on c xs of [] \<Rightarrow> [[x]] | y # ys \<Rightarrow> (x # y) # ys))"

definition is_digit :: "char \<Rightarrow> bool" where
  "is_digit c = (48 \<le> (of_char c :: nat) \<and> (of_char c :: nat) \<le> 57)"

definition isdigit :: "string \<Rightarrow> bool" where
  "isdigit s = (s \<noteq> [] \<and> list_all is_digit s)"

fun starts_with :: "string \<Rightarrow> string \<Rightarrow> bool" where
  "starts_with [] s = True"
| "starts_with (p # ps) [] = False"
| "starts_with (p # ps) (c # cs) = (p = c \<and> starts_with ps cs)"

definition ends_with :: "string \<Rightarrow> string \<Rightarrow> bool" where
  "ends_with p s = starts_with (rev p) (rev s)"


subsection \<open>\<^verbatim>\<open>int(str)\<close> and \<^verbatim>\<open>f"{n:03d}"\<close>\<close>

definition digit_val :: "char \<Rightarrow> nat" where
  "digit_val c = of_char c - 48"

definition digits_val :: "string \<Rightarrow> nat" where
  "digits_val s = foldl (\<lambda>a c. 10 * a + digit_val c) 0 s"

text \<open>The digit part of an integer literal: digits, with single underscores allowed
  between two digits.\<close>

fun valid_digits :: "string \<Rightarrow> bool" where
  "valid_digits [] = False"
| "valid_digits [c] = is_digit c"
| "valid_digits (c # d # r) =
     (is_digit c \<and> (if d = CHR ''_'' then valid_digits r else valid_digits (d # r)))"

definition py_int :: "string \<Rightarrow> exn + int" where
  "py_int s =
     (case strip s of
        [] \<Rightarrow> Inl ValueError
      | c # r \<Rightarrow>
          (let neg = (c = CHR ''-'');
               ds = (if c = CHR ''-'' \<or> c = CHR ''+'' then r else c # r)
           in if valid_digits ds
              then Inr ((if neg then - 1 else 1) *
                        int (digits_val (filter (\<lambda>x. x \<noteq> CHR ''_'') ds)))
              else Inl ValueError))"

definition digit_char :: "nat \<Rightarrow> char" where
  "digit_char d = char_of (48 + d)"

fun dec :: "nat \<Rightarrow> string" where
  "dec n = (if n < 10 then [digit_char n] else dec (n div 10) @ [digit_char (n mod 10)])"

declare dec.simps [simp del]

text \<open>\<^verbatim>\<open>f"{n:03d}"\<close> for a non-negative \<open>n\<close>.\<close>

definition fmt03 :: "nat \<Rightarrow> string" where
  "fmt03 n = replicate (3 - length (dec n)) (CHR ''0'') @ dec n"

subsection \<open>\<^verbatim>\<open>Path.stem\<close> and the version prefix of a migration file\<close>

text \<open>\<^verbatim>\<open>name.rfind('.')\<close>: the index of the last dot, if any.\<close>

definition rfind_dot :: "string \<Rightarrow> nat option" where
  "rfind_dot name =
     (if CHR ''.'' \<in> set name
      then Some (length name - 1 - length (takeWhile (\<lambda>c. c \<noteq> CHR ''.'') (rev name)))
      else None)"

definition stem :: "string \<Rightarrow> string" where
  "stem name =
     (case rfind_dot name of
        None \<Rightarrow> name
      | Some i \<Rightarrow> if 0 < i \<and> i < length name - 1 then take i name else name)"

text \<open>\<^verbatim>\<open>f.stem.split('_')[0]\<close>; \<^verbatim>\<open>split\<close> never returns an empty list, the
  \<^verbatim>\<open>IndexError\<close> branch is kept as the source has it.\<close>

definition version_prefix :: "string \<Rightarrow> exn + string" where
  "version_prefix name =
     (case split_on (CHR ''_'') (stem name) of [] \<Rightarrow> Inl IndexError | p # _ \<Rightarrow> Inr p)"

text \<open>\<^verbatim>\<open>int(migration_file.stem.split('_')[0])\<close>\<close>

definition file_version :: "string \<Rightarrow> exn + int" where
  "file_version name =
     (case version_prefix name of Inl e \<Rightarrow> Inl e | Inr p \<Rightarrow> py_int p)"


text \<open>\<^verbatim>\<open>f"{n:03d}"\<close>: the sign counts towards the width of three.\<close>

definition fmt03_int :: "int \<Rightarrow> string" where
  "fmt03_int n =
     (if n < 0
      then CHR ''-'' # replicate (2 - length (dec (nat (- n)))) (CHR ''0'') @ dec (nat (- n))
      else fmt03 (nat n))"

section \<open>The world: files, console, external tools\<close>

text \<open>
  A parsed JSON document. Python dictionaries keep insertion order, so an object is an
  association list: \<open>AList.update\<close> replaces a key in place or appends a new one, as
  \<^verbatim>\<open>d[k] = v\<close> does. Floating-point numbers are left out.
\<close>

datatype json =
    JNull | JBool bool | JInt int | JStr string
  | JList "json list" | JDict "(string \<times> json) list"

text \<open>
  The configuration file \<^verbatim>\<open>config.json\<close>: absent, present but failing in
  \<^verbatim>\<open>open\<close> or \<^verbatim>\<open>json.load\<close>, or holding a document. \<^verbatim>\<open>json.dump\<close> followed
  by \<^verbatim>\<open>json.load\<close> is taken to give the document back.
\<close>

datatype read_failure = Unreadable | NotText | NotJson

fun read_exn :: "read_failure \<Rightarrow> exn" where
  "read_exn Unreadable = OSError"
| "read_exn NotText = UnicodeDecodeError"
| "read_exn NotJson = JSONDecodeError"

datatype cfg_file = Missing | Broken read_failure | Parsed json

text \<open>The text of a migration file: plain SQL, or the stub that
  \<^verbatim>\<open>create_migration\<close> formats from the version and the name.\<close>

datatype sql_text = SqlText string | Template int string

text \<open>
  \<^item> \<open>config_writable\<close>: whether \<^verbatim>\<open>open(config_file, 'w')\<close> succeeds;
  \<^item> \<open>migrations_dir\<close>: \<open>None\<close> when the directory does not exist, else its entries
    (name, text) in the order the file system lists them;
  \<^item> \<open>staging\<close>: the files \<^verbatim>\<open>~/.astranet/migration_{version}.sql\<close>, by version, each
    holding the database name and the SQL of \<^verbatim>\<open>f"USE {db_name};\n{sql_content}"\<close>;
  \<^item> \<open>ca_pid_file\<close>: the text of \<^verbatim>\<open>~/.astranet/ca_server.pid\<close>, if present;
  \<^item> \<open>regular_file\<close>: \<^verbatim>\<open>Path(p).exists() and Path(p).is_file()\<close>.
  Writing and unlinking a file under \<^verbatim>\<open>~/.astranet\<close> is taken to succeed.
\<close>

record disk =
  config_file :: cfg_file
  config_writable :: bool
  migrations_dir :: "(string \<times> sql_text) list option"
  staging :: "int \<rightharpoonup> json \<times> sql_text"
  ca_pid_file :: "string option"
  regular_file :: "string \<Rightarrow> bool"

text \<open>What \<^verbatim>\<open>console.print\<close> is called with; the f-strings are kept unformatted, a
  constructor holds the interpolated values. \<^verbatim>\<open>console.print\<close> is taken to succeed.\<close>

datatype msg =
    ConfigReadError exn
  | ConfigSaveError exn
  | SchemaVersion int
  | MigrationsDirMissing
  | MigrationFileIgnored string
  | ApplyingMigration int string
  | MigrationApplied int
  | MigrationError int string
  | NoPendingMigrations
  | FoundPending nat
  | HaltingAtVersion int
  | AllMigrationsApplied
  | MigrationCreated string
  | InitStarting
  | InitExecuting json
  | ClusterInitialized
  | InitStdout string
  | BlankLine
  | CreatingDatabaseAuto
  | DatabaseCreatedAuto
  | DatabaseCreateNonCritical
  | ClusterAlreadyInitialized
  | InitError
  | InitStderr string
  | InitSeeLogs
  | InitException exn
  | CreatingDatabase json
  | DatabaseCreateError string
  | DatabaseReady json
  | CaNotRunning
  | StoppingCa string
  | CaStopped
  | CaStopError

record world =
  disk :: disk
  console :: "msg list"

definition say :: "msg \<Rightarrow> world \<Rightarrow> world" where
  "say m w = w\<lparr>console := console w @ [m]\<rparr>"

text \<open>The shell commands the managers build, with the values they interpolate: the
  \<^verbatim>\<open>cockroach\<close> binary, the SQL port, the database name, the staging file's version,
  the process id.\<close>

datatype command =
    WhichCockroach
  | SqlMaxVersion string json json
  | SqlRunStaged string json int
  | SqlCreateDatabase string json json
  | CockroachInit string json
  | Kill string

text \<open>\<^verbatim>\<open>subprocess.run\<close>: the tool exits with a code and its two outputs, or the call
  raises (with the text \<^verbatim>\<open>str(e)\<close>); either way it may change the disk.\<close>

datatype sh_outcome = Exited int string string | Raised exn string

type_synonym shell = "command \<Rightarrow> disk \<Rightarrow> sh_outcome \<times> disk"

text \<open>\<^verbatim>\<open>SystemUtils.run_command\<close> with \<^verbatim>\<open>capture_output=True\<close>.\<close>

definition run_command :: "shell \<Rightarrow> command \<Rightarrow> disk \<Rightarrow> (exn + int \<times> string \<times> string) \<times> disk" where
  "run_command sh cmd d =
     (case sh cmd d of
        (Exited rc out err, d') \<Rightarrow> (Inr (rc, out, err), d')
      | (Raised e m, d') \<Rightarrow>
          if is_Exception e then (Inr (1, [], m), d') else (Inl e, d'))"

section \<open>\<^verbatim>\<open>CockroachManager\<close>: the configuration store\<close>

definition default_fields :: "(string \<times> json) list" where
  "default_fields =
     [(''sql_port'', JInt 26257),
      (''http_port'', JInt 8080),
      (''domain'', JStr ''astranet.local''),
      (''cluster_nodes'', JList []),
      (''database_name'', JStr ''defaultdb''),
      (''admin_user'', JStr ''admin''),
      (''admin_password'', JStr ''astranet2026'')]"

definition default_config :: json where
  "default_config = JDict default_fields"

text \<open>\<^verbatim>\<open>with open(config_file) as f: json.load(f)\<close>\<close>

fun json_load :: "cfg_file \<Rightarrow> exn + json" where
  "json_load Missing = Inl FileNotFoundError"
| "json_load (Broken f) = Inl (read_exn f)"
| "json_load (Parsed j) = Inr j"

text \<open>\<^verbatim>\<open>obj.get(key, default)\<close>: only a dictionary has \<^verbatim>\<open>get\<close>.\<close>

fun py_get :: "json \<Rightarrow> string \<Rightarrow> json \<Rightarrow> exn + json" where
  "py_get (JDict kvs) key dflt =
     Inr (case map_of kvs key of Some v \<Rightarrow> v | None \<Rightarrow> dflt)"
| "py_get _ key dflt = Inl AttributeError"

definition load_config :: "world \<Rightarrow> (exn + json) \<times> world" where
  "load_config w =
     (if config_file (disk w) \<noteq> Missing then
        (case (case json_load (config_file (disk w)) of
                 Inl e \<Rightarrow> Inl e
               | Inr full_config \<Rightarrow> py_get full_config ''cockroachdb'' default_config) of
           Inr c \<Rightarrow> (Inr c, w)
         | Inl e \<Rightarrow>
             if is_Exception e then (Inr default_config, say (ConfigReadError e) w)
             else (Inl e, w))
      else (Inr default_config, w))"




text \<open>Reading the document on disk: a top-level section, and a field of the
  \<^verbatim>\<open>cockroachdb\<close> sub-section.\<close>

definition section_of :: "cfg_file \<Rightarrow> string \<Rightarrow> json option" where
  "section_of cf s = (case cf of Parsed (JDict kvs) \<Rightarrow> map_of kvs s | _ \<Rightarrow> None)"

definition field_of :: "cfg_file \<Rightarrow> string \<Rightarrow> json option" where
  "field_of cf k =
     (case section_of cf ''cockroachdb'' of Some (JDict sec) \<Rightarrow> map_of sec k | _ \<Rightarrow> None)"

text \<open>A field of a loaded configuration.\<close>

definition config_field :: "json \<Rightarrow> string \<Rightarrow> json option" where
  "config_field c k = (case c of JDict kvs \<Rightarrow> map_of kvs k | _ \<Rightarrow> None)"


section \<open>\<^verbatim>\<open>CockroachManager\<close>: the tool's binary\<close>

definition cockroach_paths :: "string list" where
  "cockroach_paths =
     [''/usr/local/bin/cockroach'', ''/usr/bin/cockroach'', ''~/bin/cockroach'']"

definition get_cockroach_binary :: "shell \<Rightarrow> world \<Rightarrow> (exn + string) \<times> world" where
  "get_cockroach_binary sh w =
     (case find (regular_file (disk w)) cockroach_paths of
        Some path \<Rightarrow> (Inr path, w)
      | None \<Rightarrow>
          (case run_command sh WhichCockroach (disk w) of
             (Inl e, d) \<Rightarrow> (Inl e, w\<lparr>disk := d\<rparr>)
           | (Inr (returncode, stdout, _), d) \<Rightarrow>
               (Inr (if returncode = 0 then strip stdout else ''cockroach''), w\<lparr>disk := d\<rparr>)))"

section \<open>\<^verbatim>\<open>MigrationManager\<close>\<close>

text \<open>The parsing of the query's output in \<^verbatim>\<open>get_current_version\<close>: the first line
  that is all digits, else 0.\<close>

definition parse_version :: "int \<Rightarrow> string \<Rightarrow> exn + int" where
  "parse_version returncode stdout =
     (if returncode = 0 \<and> stdout \<noteq> [] then
        (case find (\<lambda>line. isdigit (strip line)) (split_on (CHR 0x0A) (strip stdout)) of
           Some line \<Rightarrow> py_int (strip line)
         | None \<Rightarrow> Inr 0)
      else Inr 0)"

definition get_current_version :: "shell \<Rightarrow> world \<Rightarrow> (exn + int) \<times> world" where
  "get_current_version sh w =
     (case get_cockroach_binary sh w of
        (Inl e, w1) \<Rightarrow> (Inl e, w1)
      | (Inr cockroach, w1) \<Rightarrow>
     (case load_config w1 of
        (Inl e, w2) \<Rightarrow> (Inl e, w2)
      | (Inr config, w2) \<Rightarrow>
     (case py_get config ''sql_port'' (JInt 26257) of
        Inl e \<Rightarrow> (Inl e, w2)
      | Inr sql_port \<Rightarrow>
     (case py_get config ''database_name'' (JStr ''astranetdb'') of
        Inl e \<Rightarrow> (Inl e, w2)
      | Inr db_name \<Rightarrow>
     (case run_command sh (SqlMaxVersion cockroach sql_port db_name) (disk w2) of
        (Inl e, d) \<Rightarrow> (Inl e, w2\<lparr>disk := d\<rparr>)
      | (Inr (returncode, stdout, _), d) \<Rightarrow>
          (parse_version returncode stdout, w2\<lparr>disk := d\<rparr>))))))"

text \<open>\<^verbatim>\<open>migrations_dir.glob("*.sql")\<close>, in the order of the file system.\<close>

definition glob_sql :: "disk \<Rightarrow> string list" where
  "glob_sql d =
     (case migrations_dir d of
        None \<Rightarrow> []
      | Some entries \<Rightarrow> filter (ends_with ''.sql'') (map fst entries))"

text \<open>The loop of \<^verbatim>\<open>get_pending_migrations\<close>: the list \<open>migrations\<close> and the console
  are threaded through; \<^verbatim>\<open>except (ValueError, IndexError)\<close> warns and goes on.\<close>

fun scan_files ::
  "int \<Rightarrow> string list \<Rightarrow> (int \<times> string) list \<times> msg list
     \<Rightarrow> exn + (int \<times> string) list \<times> msg list" where
  "scan_files current_version [] acc = Inr acc"
| "scan_files current_version (migration_file # rest) (migrations, out) =
     (case file_version migration_file of
        Inr version \<Rightarrow>
          scan_files current_version rest
            (if version > current_version
             then migrations @ [(version, migration_file)] else migrations, out)
      | Inl e \<Rightarrow>
          if e = ValueError \<or> e = IndexError
          then scan_files current_version rest
                 (migrations, out @ [MigrationFileIgnored migration_file])
          else Inl e)"

definition get_pending_migrations ::
  "shell \<Rightarrow> world \<Rightarrow> (exn + (int \<times> string) list) \<times> world" where
  "get_pending_migrations sh w =
     (case get_current_version sh w of
        (Inl e, w1) \<Rightarrow> (Inl e, w1)
      | (Inr current_version, w1) \<Rightarrow>
          (let w2 = say (SchemaVersion current_version) w1 in
           if migrations_dir (disk w2) = None
           then (Inr [], say MigrationsDirMissing w2)
           else (case scan_files current_version (sort (glob_sql (disk w2))) ([], console w2) of
                   Inl e \<Rightarrow> (Inl e, w2)
                 | Inr (migrations, out) \<Rightarrow>
                     (Inr (sort_key fst migrations), w2\<lparr>console := out\<rparr>))))"

text \<open>\<^verbatim>\<open>migration_file.read_text()\<close>\<close>

definition read_migration :: "disk \<Rightarrow> string \<Rightarrow> exn + sql_text" where
  "read_migration d name =
     (case migrations_dir d of
        None \<Rightarrow> Inl FileNotFoundError
      | Some entries \<Rightarrow>
          (case map_of entries name of None \<Rightarrow> Inl FileNotFoundError | Some t \<Rightarrow> Inr t))"

text \<open>The \<^verbatim>\<open>finally\<close> of \<^verbatim>\<open>apply_migration\<close>:
  \<^verbatim>\<open>if temp_sql.exists(): temp_sql.unlink()\<close>\<close>

definition cleanup_staging :: "int \<Rightarrow> world \<Rightarrow> world" where
  "cleanup_staging version w =
     (if staging (disk w) version \<noteq> None
      then w\<lparr>disk := (disk w)\<lparr>staging := (staging (disk w))(version := None)\<rparr>\<rparr>
      else w)"

definition apply_migration :: "shell \<Rightarrow> int \<Rightarrow> string \<Rightarrow> world \<Rightarrow> (exn + bool) \<times> world" where
  "apply_migration sh version migration_file w =
     (case get_cockroach_binary sh w of
        (Inl e, w1) \<Rightarrow> (Inl e, w1)
      | (Inr cockroach, w1) \<Rightarrow>
     (case load_config w1 of
        (Inl e, w2) \<Rightarrow> (Inl e, w2)
      | (Inr config, w2) \<Rightarrow>
     (case py_get config ''sql_port'' (JInt 26257) of
        Inl e \<Rightarrow> (Inl e, w2)
      | Inr sql_port \<Rightarrow>
     (case py_get config ''database_name'' (JStr ''astranetdb'') of
        Inl e \<Rightarrow> (Inl e, w2)
      | Inr db_name \<Rightarrow>
     (let w3 = say (ApplyingMigration version migration_file) w2 in
      case read_migration (disk w3) migration_file of
        Inl e \<Rightarrow> (Inl e, w3)
      | Inr sql_content \<Rightarrow>
     (let w4 = w3\<lparr>disk := (disk w3)
                 \<lparr>staging := (staging (disk w3))(version \<mapsto> (db_name, sql_content))\<rparr>\<rparr> in
      case run_command sh (SqlRunStaged cockroach sql_port version) (disk w4) of
        (Inl e, d) \<Rightarrow> (Inl e, cleanup_staging version (w4\<lparr>disk := d\<rparr>))
      | (Inr (returncode, _, stderr), d) \<Rightarrow>
          (if returncode = 0
           then (Inr True,
                 cleanup_staging version (say (MigrationApplied version) (w4\<lparr>disk := d\<rparr>)))
           else (Inr False,
                 cleanup_staging version
                   (say (MigrationError version stderr) (w4\<lparr>disk := d\<rparr>))))))))))"

text \<open>The \<^verbatim>\<open>for\<close> loop of \<^verbatim>\<open>migrate\<close>, with its \<^verbatim>\<open>break\<close>.\<close>

fun migrate_loop :: "shell \<Rightarrow> (int \<times> string) list \<Rightarrow> world \<Rightarrow> (exn + bool) \<times> world" where
  "migrate_loop sh [] w = (Inr True, w)"
| "migrate_loop sh ((version, migration_file) # rest) w =
     (case apply_migration sh version migration_file w of
        (Inl e, w1) \<Rightarrow> (Inl e, w1)
      | (Inr ok, w1) \<Rightarrow>
          if \<not> ok then (Inr False, say (HaltingAtVersion version) w1)
          else migrate_loop sh rest w1)"

definition migrate :: "shell \<Rightarrow> world \<Rightarrow> (exn + bool) \<times> world" where
  "migrate sh w =
     (case get_pending_migrations sh w of
        (Inl e, w1) \<Rightarrow> (Inl e, w1)
      | (Inr pending, w1) \<Rightarrow>
          if pending = [] then (Inr True, say NoPendingMigrations w1)
          else (case migrate_loop sh pending (say (FoundPending (length pending)) w1) of
                  (Inl e, w2) \<Rightarrow> (Inl e, w2)
                | (Inr success, w2) \<Rightarrow>
                    (Inr success, if success then say AllMigrationsApplied w2 else w2)))"

text \<open>The list comprehension of \<^verbatim>\<open>create_migration\<close>:
  \<^verbatim>\<open>[int(p) for f in existing_files if p.isdigit()]\<close>, \<open>p\<close> the version prefix.\<close>

fun digit_versions :: "string list \<Rightarrow> exn + int list" where
  "digit_versions [] = Inr []"
| "digit_versions (f # fs) =
     (case version_prefix f of
        Inl e \<Rightarrow> Inl e
      | Inr p \<Rightarrow>
          if isdigit p
          then (case py_int p of
                  Inl e \<Rightarrow> Inl e
                | Inr v \<Rightarrow>
                    (case digit_versions fs of Inl e \<Rightarrow> Inl e | Inr vs \<Rightarrow> Inr (v # vs)))
          else digit_versions fs)"

text \<open>\<^verbatim>\<open>max(list)\<close>: raises on the empty list.\<close>

fun py_max :: "int list \<Rightarrow> exn + int" where
  "py_max [] = Inl ValueError"
| "py_max (x # xs) = Inr (fold max xs x)"

definition next_version :: "int \<Rightarrow> string list \<Rightarrow> exn + int" where
  "next_version current_version existing_files =
     (if existing_files \<noteq> [] then
        (case digit_versions existing_files of
           Inl e \<Rightarrow> Inl e
         | Inr vs \<Rightarrow>
             (case py_max vs of
                Inl e \<Rightarrow> Inl e
              | Inr last_number \<Rightarrow> Inr (max (current_version + 1) (last_number + 1))))
      else Inr (current_version + 1))"

definition create_migration :: "string \<Rightarrow> shell \<Rightarrow> world \<Rightarrow> (exn + string) \<times> world" where
  "create_migration name sh w =
     (case get_current_version sh w of
        (Inl e, w1) \<Rightarrow> (Inl e, w1)
      | (Inr current_version, w1) \<Rightarrow>
     (case next_version current_version (glob_sql (disk w1)) of
        Inl e \<Rightarrow> (Inl e, w1)
      | Inr nv \<Rightarrow>
     (let filename = fmt03_int nv @ ''_'' @ name @ ''.sql'' in
      case migrations_dir (disk w1) of
        None \<Rightarrow> (Inl FileNotFoundError, w1)
      | Some entries \<Rightarrow>
          (Inr filename,
           say (MigrationCreated filename)
             (w1\<lparr>disk := (disk w1)
                   \<lparr>migrations_dir := Some (AList.update filename (Template nv name) entries)\<rparr>\<rparr>)))))"


section \<open>\<^verbatim>\<open>CockroachManager\<close>: cluster initialisation and the CA server\<close>




text \<open>\<^verbatim>\<open>pid_file.unlink()\<close> raises when the file is gone.\<close>

definition stop_ca_server :: "shell \<Rightarrow> world \<Rightarrow> (exn + bool) \<times> world" where
  "stop_ca_server sh w =
     (case ca_pid_file (disk w) of
        None \<Rightarrow> (Inr False, say CaNotRunning w)
      | Some text \<Rightarrow>
          (let pid = strip text; w1 = say (StoppingCa pid) w in
           case run_command sh (Kill pid) (disk w1) of
             (Inl e, d) \<Rightarrow> (Inl e, w1\<lparr>disk := d\<rparr>)
           | (Inr (returncode, _, _), d) \<Rightarrow>
               if returncode = 0 then
                 (if ca_pid_file d = None then (Inl FileNotFoundError, w1\<lparr>disk := d\<rparr>)
                  else (Inr True, say CaStopped (w1\<lparr>disk := d\<lparr>ca_pid_file := None\<rparr>\<rparr>)))
               else (Inr False, say CaStopError (w1\<lparr>disk := d\<rparr>))))"

section \<open>Observations and sample worlds\<close>

text \<open>The migrations a run started on, in order: the
  \<^verbatim>\<open>Aplicando migracion\<close> lines of the console, which \<^verbatim>\<open>apply_migration\<close> prints
  before it reads the file, stages it and runs the tool.\<close>

fun started :: "msg list \<Rightarrow> (int \<times> string) list" where
  "started [] = []"
| "started (ApplyingMigration v f # ms) = (v, f) # started ms"
| "started (_ # ms) = started ms"

text \<open>The files the scan warned about.\<close>

fun ignored :: "msg list \<Rightarrow> string list" where
  "ignored [] = []"
| "ignored (MigrationFileIgnored f # ms) = f # ignored ms"
| "ignored (_ # ms) = ignored ms"

text \<open>
  What the specification says of the scan, word for word: the files whose prefix parses
  to a version strictly greater than the current one, and the files whose prefix does not
  parse.
\<close>

definition accepted :: "int \<Rightarrow> string list \<Rightarrow> (int \<times> string) list" where
  "accepted current_version names =
     concat (map (\<lambda>f. case file_version f of
                         Inr v \<Rightarrow> if v > current_version then [(v, f)] else []
                       | Inl _ \<Rightarrow> []) names)"

definition rejected :: "string list \<Rightarrow> string list" where
  "rejected names = filter (\<lambda>f. isl (file_version f)) names"

definition empty_disk :: disk where
  "empty_disk =
     \<lparr>config_file = Missing, config_writable = True, migrations_dir = None,
      staging = Map.empty, ca_pid_file = None, regular_file = (\<lambda>p. False)\<rparr>"

definition fresh_world :: world where
  "fresh_world = \<lparr>disk = empty_disk, console = []\<rparr>"

definition with_migrations :: "string list \<Rightarrow> world" where
  "with_migrations names =
     \<lparr>disk = empty_disk\<lparr>migrations_dir := Some (map (\<lambda>n. (n, SqlText ''SELECT 1;'')) names)\<rparr>,
      console = []\<rparr>"

definition with_config_file :: "cfg_file \<Rightarrow> world" where
  "with_config_file cf = \<lparr>disk = empty_disk\<lparr>config_file := cf\<rparr>, console = []\<rparr>"

text \<open>A database at schema version \<open>current\<close> on which the migration \<open>bad\<close> fails.\<close>

definition sample_shell :: "string \<Rightarrow> int \<Rightarrow> shell" where
  "sample_shell current bad cmd d =
     (case cmd of
        SqlMaxVersion _ _ _ \<Rightarrow> (Exited 0 (''coalesce'' @ [CHR 0x0A] @ current @ [CHR 0x0A]) [], d)
      | SqlRunStaged _ _ v \<Rightarrow>
          if v = bad then (Exited 1 [] ''ERROR: syntax error'', d) else (Exited 0 [] [], d)
      | _ \<Rightarrow> (Exited 0 [] [], d))"

text \<open>A tool that exits with the given code and error output.\<close>

definition exiting_shell :: "int \<Rightarrow> string \<Rightarrow> shell" where
  "exiting_shell rc err cmd d = (Exited rc [] err, d)"

text \<open>A call interrupted from the keyboard while the tool runs.\<close>

definition interrupted_shell :: shell where
  "interrupted_shell cmd d =
     (case cmd of
        SqlRunStaged _ _ _ \<Rightarrow> (Raised KeyboardInterrupt [], d)
      | _ \<Rightarrow> (Exited 0 [] [], d))"



section \<open>The configuration store: loading\<close>

lemma read_exn_is_Exception: "is_Exception (read_exn f)"
  by (cases f) simp_all

lemma json_load_is_Exception: "json_load cf = Inl e \<Longrightarrow> is_Exception e"
  by (cases cf) (auto simp: read_exn_is_Exception)

lemma py_get_is_Exception: "py_get j k d = Inl e \<Longrightarrow> is_Exception e"
  by (cases j) auto

text \<open>
  Claim C10. \<^verbatim>\<open>load_config\<close> never raises, whatever the configuration file holds; when
  the file exists but cannot be opened, decoded or parsed as JSON, it prints the warning
  and returns the complete built-in default configuration.
\<close>

theorem load_config_total:
  "(\<exists>c. fst (load_config w) = Inr c) \<and>
   (\<forall>f. config_file (disk w) = Broken f \<longrightarrow>
      load_config w = (Inr default_config, say (ConfigReadError (read_exn f)) w))"
proof (intro conjI allI impI)
  show "\<exists>c. fst (load_config w) = Inr c"
    by (auto simp: load_config_def split: sum.splits
          dest: json_load_is_Exception py_get_is_Exception)
next
  fix f assume "config_file (disk w) = Broken f"
  then show "load_config w = (Inr default_config, say (ConfigReadError (read_exn f)) w)"
    by (cases f) (simp_all add: load_config_def)
qed

theorem load_config_total_witness:
  "config_file (disk (with_config_file (Broken NotJson))) = Broken NotJson \<and>
   load_config (with_config_file (Broken NotJson)) =
     (Inr default_config,
      say (ConfigReadError JSONDecodeError) (with_config_file (Broken NotJson)))"
  using load_config_total [of "with_config_file (Broken NotJson)"]
  by (simp add: with_config_file_def)

text \<open>
  Claim C5, as the code has it. \<^verbatim>\<open>load_config\<close> does not fail when the file is absent
  and returns the built-in defaults then; it returns the built-in defaults as a whole when
  the document has no \<^verbatim>\<open>cockroachdb\<close> sub-section; a stored sub-section is returned as
  it is, with no default filled in for a field it lacks.
\<close>

theorem load_config_defaults:
  "(config_file (disk w) = Missing \<longrightarrow> load_config w = (Inr default_config, w)) \<and>
   (\<forall>kvs. config_file (disk w) = Parsed (JDict kvs) \<longrightarrow>
      map_of kvs ''cockroachdb'' = None \<longrightarrow> load_config w = (Inr default_config, w)) \<and>
   (\<forall>kvs sec. config_file (disk w) = Parsed (JDict kvs) \<longrightarrow>
      map_of kvs ''cockroachdb'' = Some sec \<longrightarrow> load_config w = (Inr sec, w))"
  by (simp add: load_config_def)

theorem load_config_defaults_witness:
  "load_config fresh_world = (Inr default_config, fresh_world) \<and>
   load_config (with_config_file (Parsed (JDict [(''k8s'', JNull)]))) =
     (Inr default_config, with_config_file (Parsed (JDict [(''k8s'', JNull)]))) \<and>
   load_config
     (with_config_file (Parsed (JDict [(''cockroachdb'', JDict [(''domain'', JStr ''x'')])]))) =
     (Inr (JDict [(''domain'', JStr ''x'')]),
      with_config_file (Parsed (JDict [(''cockroachdb'', JDict [(''domain'', JStr ''x'')])])))"
  using load_config_defaults [of fresh_world]
    load_config_defaults [of "with_config_file (Parsed (JDict [(''k8s'', JNull)]))"]
    load_config_defaults
      [of "with_config_file (Parsed (JDict [(''cockroachdb'', JDict [(''domain'', JStr ''x'')])]))"]
  by (simp add: with_config_file_def fresh_world_def empty_disk_def)

text \<open>The stored sub-section \<^verbatim>\<open>{"domain": "x"}\<close> has no \<^verbatim>\<open>sql_port\<close>; the loaded
  configuration has none either, although the defaults have one.\<close>

theorem load_config_missing_field_counterexample:
  "fst (load_config
          (with_config_file (Parsed (JDict [(''cockroachdb'', JDict [(''domain'', JStr ''x'')])]))))
     = Inr (JDict [(''domain'', JStr ''x'')]) \<and>
   field_of (Parsed (JDict [(''cockroachdb'', JDict [(''domain'', JStr ''x'')])])) ''sql_port''
     = None \<and>
   config_field (JDict [(''domain'', JStr ''x'')]) ''sql_port'' = None \<and>
   config_field default_config ''sql_port'' = Some (JInt 26257)"
  by (simp add: load_config_def with_config_file_def empty_disk_def field_of_def section_of_def
        config_field_def default_config_def default_fields_def)

section \<open>Stopping the CA server\<close>

text \<open>
  Claim C9, as the code has it. With no PID file, \<^verbatim>\<open>stop_ca_server\<close> runs no command
  (the result does not depend on the shell, and no \<^verbatim>\<open>kill\<close> is sent), leaves the disk
  as it is, prints the not-running warning and returns \<^verbatim>\<open>False\<close>.
\<close>

theorem stop_ca_server_no_pid_file:
  "ca_pid_file (disk w) = None \<Longrightarrow> stop_ca_server sh w = (Inr False, say CaNotRunning w)"
  by (simp add: stop_ca_server_def)

theorem stop_ca_server_no_pid_file_witness:
  "ca_pid_file (disk fresh_world) = None \<and>
   stop_ca_server interrupted_shell fresh_world = (Inr False, say CaNotRunning fresh_world)"
  using stop_ca_server_no_pid_file [of fresh_world interrupted_shell]
  by (simp add: fresh_world_def empty_disk_def)

text \<open>The value returned with no PID file is not the success value.\<close>

theorem stop_ca_server_reports_failure_counterexample:
  "ca_pid_file (disk fresh_world) = None \<and>
   fst (stop_ca_server (exiting_shell 0 []) fresh_world) \<noteq> Inr True"
  by (simp add: stop_ca_server_def fresh_world_def empty_disk_def)

section \<open>Cluster initialisation\<close>





section \<open>The configuration store: saving\<close>










section \<open>Decimal strings\<close>

lemma is_digit_not_space: "is_digit c \<Longrightarrow> \<not> is_space c"
  by (auto simp: is_digit_def is_space_def)

lemma is_digit_not_special:
  "is_digit c \<Longrightarrow> c \<noteq> CHR ''_'' \<and> c \<noteq> CHR ''-'' \<and> c \<noteq> CHR ''+'' \<and> c \<noteq> CHR ''.''"
  by (auto simp: is_digit_def)

lemma dropWhile_hd: "s \<noteq> [] \<Longrightarrow> \<not> P (hd s) \<Longrightarrow> dropWhile P s = s"
  by (cases s) simp_all

lemma strip_id: "s \<noteq> [] \<Longrightarrow> \<not> is_space (hd s) \<Longrightarrow> \<not> is_space (last s) \<Longrightarrow> strip s = s"
  by (simp add: strip_def dropWhile_hd hd_rev)

lemma valid_digits_all: "s \<noteq> [] \<Longrightarrow> list_all is_digit s \<Longrightarrow> valid_digits s"
  by (induction s rule: valid_digits.induct) (auto dest: is_digit_not_special)

lemma filter_digits: "list_all is_digit s \<Longrightarrow> filter (\<lambda>x. x \<noteq> CHR ''_'') s = s"
  by (induction s) (auto dest: is_digit_not_special)

lemma py_int_isdigit:
  assumes "isdigit s"
  shows "py_int s = Inr (int (digits_val s))"
proof -
  from assms obtain c r where s: "s = c # r" and all: "list_all is_digit s"
    by (cases s) (auto simp: isdigit_def)
  have "is_digit (hd s)" "is_digit (last s)"
    using all s by (auto simp: list_all_iff)
  then have st: "strip s = s"
    using s by (intro strip_id) (auto dest: is_digit_not_space)
  have c: "c \<noteq> CHR ''-''" "c \<noteq> CHR ''+''"
    using all s by (auto dest: is_digit_not_special)
  have v: "valid_digits (c # r)" using all s valid_digits_all by blast
  have f: "filter (\<lambda>x. x \<noteq> CHR ''_'') (c # r) = c # r"
    using all s filter_digits by blast
  show ?thesis
    unfolding py_int_def st
    by (simp add: s c v del: valid_digits.simps filter.simps) (simp only: f)
qed

lemma digits_val_snoc: "digits_val (s @ [c]) = 10 * digits_val s + digit_val c"
  by (simp add: digits_val_def)

lemma digit_char_props: "d < 10 \<Longrightarrow> is_digit (digit_char d) \<and> digit_val (digit_char d) = d"
  by (simp add: is_digit_def digit_val_def digit_char_def)

lemma dec_digits: "list_all is_digit (dec n) \<and> dec n \<noteq> [] \<and> digits_val (dec n) = n"
proof (induction n rule: dec.induct)
  case (1 n)
  show ?case
  proof (cases "n < 10")
    case True
    then show ?thesis
      using digit_char_props [of n] by (simp add: dec.simps [of n] digits_val_def)
  next
    case False
    then have "n mod 10 < 10" by simp
    with False "1.IH" digit_char_props [of "n mod 10"] show ?thesis
      by (simp add: dec.simps [of n] digits_val_snoc)
  qed
qed

lemma digits_val_zeros: "digits_val (replicate k (CHR ''0'') @ s) = digits_val s"
  unfolding digits_val_def by (induction k) (simp_all add: digit_val_def)

lemma fmt03_digits: "isdigit (fmt03 n) \<and> digits_val (fmt03 n) = n"
  using dec_digits [of n]
  by (auto simp: fmt03_def isdigit_def digits_val_zeros list_all_iff is_digit_def)

lemma py_int_fmt03_int: "0 \<le> v \<Longrightarrow> py_int (fmt03_int v) = Inr v"
  using fmt03_digits [of "nat v"] by (simp add: fmt03_int_def py_int_isdigit)

lemma split_on_prefix: "c \<notin> set p \<Longrightarrow> split_on c (p @ c # r) = p # split_on c r"
  by (induction p) auto

lemma stem_sql: "X \<noteq> [] \<Longrightarrow> stem (X @ ''.sql'') = X"
proof -
  assume "X \<noteq> []"
  have "rev (X @ ''.sql'') = ''lqs.'' @ rev X" by simp
  then have "takeWhile (\<lambda>c. c \<noteq> CHR ''.'') (rev (X @ ''.sql'')) = ''lqs''"
    by simp
  then have "rfind_dot (X @ ''.sql'') = Some (length X)"
    by (simp add: rfind_dot_def)
  with \<open>X \<noteq> []\<close> show ?thesis by (simp add: stem_def)
qed

lemma file_version_formatted:
  assumes "0 \<le> v"
  shows "file_version (fmt03_int v @ ''_'' @ name @ ''.sql'') = Inr v"
proof -
  let ?p = "fmt03_int v"
  have d: "isdigit ?p" using assms fmt03_digits [of "nat v"] by (simp add: fmt03_int_def)
  then have nu: "CHR ''_'' \<notin> set ?p"
    by (auto simp: isdigit_def list_all_iff dest: is_digit_not_special)
  have "stem ((?p @ ''_'' @ name) @ ''.sql'') = ?p @ ''_'' @ name"
    by (rule stem_sql) simp
  then have "stem (?p @ ''_'' @ name @ ''.sql'') = ?p @ CHR ''_'' # name" by simp
  then have "version_prefix (?p @ ''_'' @ name @ ''.sql'') = Inr ?p"
    by (simp add: version_prefix_def split_on_prefix [OF nu])
  then show ?thesis
    by (simp add: file_version_def py_int_fmt03_int [OF assms])
qed

lemma find_Some_P: "find P xs = Some x \<Longrightarrow> P x"
  by (auto simp: find_Some_iff)

lemma parse_version_total: "\<exists>v. parse_version rc out = Inr v \<and> 0 \<le> v"
  by (auto simp: parse_version_def py_int_isdigit split: option.splits dest!: find_Some_P)

section \<open>Scanning the migrations directory\<close>

lemma split_on_nonempty: "split_on c s \<noteq> []"
  by (induction s) (auto split: list.splits)

lemma version_prefix_total: "\<exists>p. version_prefix name = Inr p"
  using split_on_nonempty [of "CHR ''_''" "stem name"]
  by (auto simp: version_prefix_def split: list.splits)

lemma py_int_error: "py_int s = Inl e \<Longrightarrow> e = ValueError"
  by (auto simp: py_int_def Let_def split: list.splits if_splits)

lemma file_version_error: "file_version f = Inl e \<Longrightarrow> e = ValueError"
  using version_prefix_total [of f]
  by (auto simp: file_version_def dest: py_int_error)

lemma scan_files_eq:
  "scan_files cur fs (ms, out) =
     Inr (ms @ accepted cur fs, out @ map MigrationFileIgnored (rejected fs))"
proof (induction fs arbitrary: ms out)
  case Nil
  then show ?case by (simp add: accepted_def rejected_def)
next
  case (Cons f fs)
  show ?case
  proof (cases "file_version f")
    case (Inl e)
    then have "e = ValueError" by (rule file_version_error)
    with Inl Cons.IH show ?thesis by (simp add: accepted_def rejected_def)
  next
    case (Inr v)
    with Cons.IH show ?thesis by (simp add: accepted_def rejected_def)
  qed
qed

lemma set_accepted:
  "set (accepted cur fs) = {(v, f). f \<in> set fs \<and> file_version f = Inr v \<and> cur < v}"
  by (auto simp: accepted_def split: sum.splits if_splits)


lemma started_append: "started (xs @ ys) = started xs @ started ys"
  by (induction xs rule: started.induct) simp_all

lemma ignored_append: "ignored (xs @ ys) = ignored xs @ ignored ys"
  by (induction xs rule: ignored.induct) simp_all


lemma started_map_ignored: "started (map MigrationFileIgnored fs) = []"
  by (induction fs) simp_all

lemma get_pending_migrations_eq:
  assumes "get_current_version sh w = (Inr cur, w1)" and "migrations_dir (disk w1) = Some entries"
  shows "get_pending_migrations sh w =
           (Inr (sort_key fst (accepted cur (sort (glob_sql (disk w1))))),
            w1\<lparr>console := console w1 @ [SchemaVersion cur] @
                  map MigrationFileIgnored (rejected (sort (glob_sql (disk w1))))\<rparr>)"
  using assms by (simp add: get_pending_migrations_def say_def scan_files_eq Let_def)


section \<open>What a migration run prints\<close>

lemma get_cockroach_binary_console:
  "get_cockroach_binary sh w = (r, w1) \<Longrightarrow> console w1 = console w"
  by (auto simp: get_cockroach_binary_def split: option.splits prod.splits sum.splits)

lemma load_config_effect:
  "load_config w = (r, w1) \<Longrightarrow>
     disk w1 = disk w \<and> started (console w1) = started (console w) \<and>
     ignored (console w1) = ignored (console w)"
  by (auto simp: load_config_def say_def started_append ignored_append
        split: if_splits sum.splits)

lemma get_current_version_effect:
  assumes "get_current_version sh w = (r, w1)"
  shows "started (console w1) = started (console w) \<and> ignored (console w1) = ignored (console w)"
proof -
  obtain rb wb where b: "get_cockroach_binary sh w = (rb, wb)" by (cases "get_cockroach_binary sh w")
  obtain rl wl where l: "load_config wb = (rl, wl)" by (cases "load_config wb")
  note cb = get_cockroach_binary_console [OF b]
  note cl = load_config_effect [OF l]
  from assms cb cl show ?thesis
    by (auto simp: get_current_version_def b l split: sum.splits prod.splits)
qed

lemma get_current_version_nonneg:
  assumes "get_current_version sh w = (Inr cur, w1)"
  shows "0 \<le> cur"
proof -
  from assms obtain rc out where "parse_version rc out = Inr cur"
    by (auto simp: get_current_version_def split: sum.splits prod.splits)
  with parse_version_total [of rc out] show ?thesis by simp
qed


lemma get_pending_migrations_effect:
  assumes "get_pending_migrations sh w = (Inr pending, w')"
  shows "started (console w') = started (console w) \<and> sorted (map fst pending)"
proof -
  obtain rv w1 where cv: "get_current_version sh w = (rv, w1)"
    by (cases "get_current_version sh w")
  with assms obtain cur where rv: "rv = Inr cur"
    by (cases rv) (simp_all add: get_pending_migrations_def)
  note e = get_current_version_effect [OF cv]
  show ?thesis
  proof (cases "migrations_dir (disk w1)")
    case None
    with assms cv rv e show ?thesis
      by (auto simp: get_pending_migrations_def say_def started_append)
  next
    case (Some entries)
    from assms e show ?thesis
      unfolding get_pending_migrations_eq [OF cv [unfolded rv] Some]
      by (auto simp: started_append started_map_ignored)
  qed
qed

lemma cleanup_staging_console: "console (cleanup_staging v w) = console w"
  by (simp add: cleanup_staging_def)

lemma disk_cleanup_staging:
  "disk (cleanup_staging v w) = (disk w)\<lparr>staging := (staging (disk w))(v := None)\<rparr>"
proof (cases "staging (disk w) v")
  case None
  then have "(staging (disk w))(v := None) = staging (disk w)" by auto
  with None show ?thesis by (simp add: cleanup_staging_def)
next
  case (Some a)
  then show ?thesis by (simp add: cleanup_staging_def)
qed

lemma cleanup_staging_gone: "staging (disk (cleanup_staging v w)) v = None"
  by (cases "staging (disk w) v") (simp_all add: cleanup_staging_def)

lemma apply_migration_console:
  assumes "apply_migration sh v f w = (r, w')"
  shows "(case r of
            Inr b \<Rightarrow> started (console w') = started (console w) @ [(v, f)] \<and>
                      (\<not> b \<longrightarrow> (\<exists>err. MigrationError v err \<in> set (console w')))
          | Inl e \<Rightarrow> started (console w') = started (console w) \<or>
                      started (console w') = started (console w) @ [(v, f)])"
proof -
  obtain rb wb where b: "get_cockroach_binary sh w = (rb, wb)"
    by (cases "get_cockroach_binary sh w")
  obtain rl wl where l: "load_config wb = (rl, wl)" by (cases "load_config wb")
  note cb = get_cockroach_binary_console [OF b]
  note cl = load_config_effect [OF l]
  from assms cb cl show ?thesis
    by (auto simp: apply_migration_def b l Let_def say_def started_append
          cleanup_staging_console split: sum.splits prod.splits if_splits)
qed

lemma migrate_loop_started:
  "migrate_loop sh pending w = (r, w') \<Longrightarrow>
     \<exists>k\<le>length pending.
        started (console w') = started (console w) @ take k pending \<and>
        (r = Inr True \<longrightarrow> k = length pending) \<and>
        (r = Inr False \<longrightarrow> 0 < k \<and> console w' \<noteq> [] \<and>
           last (console w') = HaltingAtVersion (fst (pending ! (k - 1))) \<and>
           (\<exists>err. MigrationError (fst (pending ! (k - 1))) err \<in> set (console w')))"
proof (induction pending arbitrary: w)
  case Nil
  then show ?case by auto
next
  case (Cons p rest)
  obtain v f where p: "p = (v, f)" by (cases p)
  obtain ra wa where a: "apply_migration sh v f w = (ra, wa)"
    by (cases "apply_migration sh v f w")
  note ac = apply_migration_console [OF a]
  show ?case
  proof (cases ra)
    case (Inl e)
    with Cons.prems a p have r: "r = Inl e" "w' = wa" by simp_all
    from ac Inl consider "started (console wa) = started (console w)"
      | "started (console wa) = started (console w) @ [(v, f)]" by auto
    then show ?thesis
    proof cases
      case 1
      then show ?thesis using r by (intro exI [of _ 0]) simp
    next
      case 2
      then show ?thesis using r p by (intro exI [of _ 1]) simp
    qed
  next
    case (Inr ok)
    with ac have st: "started (console wa) = started (console w) @ [(v, f)]"
      and err: "\<not> ok \<Longrightarrow> \<exists>err. MigrationError v err \<in> set (console wa)" by auto
    show ?thesis
    proof (cases ok)
      case False
      with Cons.prems a p Inr have r: "r = Inr False" "w' = say (HaltingAtVersion v) wa"
        by simp_all
      from err False obtain e where "MigrationError v e \<in> set (console wa)" by blast
      then show ?thesis
        using r p st by (intro exI [of _ 1]) (auto simp: say_def started_append)
    next
      case True
      with Cons.prems a p Inr have "migrate_loop sh rest wa = (r, w')" by simp
      from Cons.IH [OF this] obtain k where k: "k \<le> length rest"
        "started (console w') = started (console wa) @ take k rest"
        "r = Inr True \<longrightarrow> k = length rest"
        "r = Inr False \<longrightarrow> 0 < k \<and> console w' \<noteq> [] \<and>
           last (console w') = HaltingAtVersion (fst (rest ! (k - 1))) \<and>
           (\<exists>err. MigrationError (fst (rest ! (k - 1))) err \<in> set (console w'))"
        by blast
      have nth: "0 < k \<Longrightarrow> (p # rest) ! (Suc k - 1) = rest ! (k - 1)"
        by (cases k) simp_all
      show ?thesis
      proof (intro exI [of _ "Suc k"] conjI impI)
        show "Suc k \<le> length (p # rest)" using k(1) by simp
        show "started (console w') = started (console w) @ take (Suc k) (p # rest)"
          using k(2) st p by simp
        show "Suc k = length (p # rest)" if "r = Inr True" using that k(3) by simp
        show "0 < Suc k" by simp
        show "console w' \<noteq> []" if "r = Inr False" using that k(4) by simp
        show "last (console w') = HaltingAtVersion (fst ((p # rest) ! (Suc k - 1)))"
          if "r = Inr False" using that k(4) nth by simp
        show "\<exists>err. MigrationError (fst ((p # rest) ! (Suc k - 1))) err \<in> set (console w')"
          if "r = Inr False" using that k(4) nth by simp
      qed
    qed
  qed
qed

lemma migrate_started:
  assumes gp: "get_pending_migrations sh w = (Inr pending, w1)"
    and m: "migrate sh w = (r, w')"
  shows "\<exists>k\<le>length pending.
        started (console w') = started (console w) @ take k pending \<and>
        (r = Inr True \<longrightarrow> k = length pending) \<and>
        (r = Inr False \<longrightarrow> 0 < k \<and> console w' \<noteq> [] \<and>
           last (console w') = HaltingAtVersion (fst (pending ! (k - 1))) \<and>
           (\<exists>err. MigrationError (fst (pending ! (k - 1))) err \<in> set (console w')))"
proof (cases "pending = []")
  case True
  with gp m get_pending_migrations_effect [OF gp] show ?thesis
    by (auto simp: migrate_def say_def started_append)
next
  case False
  let ?w2 = "say (FoundPending (length pending)) w1"
  obtain rl wl where l: "migrate_loop sh pending ?w2 = (rl, wl)"
    by (cases "migrate_loop sh pending ?w2")
  from m gp False l have r: "r = rl"
    and w': "console w' =
       (if rl = Inr True then console wl @ [AllMigrationsApplied] else console wl)"
    by (auto simp: migrate_def say_def split: sum.splits if_splits)
  have s2: "started (console ?w2) = started (console w)"
    using get_pending_migrations_effect [OF gp] by (simp add: say_def started_append)
  from migrate_loop_started [OF l] obtain k where k: "k \<le> length pending"
    "started (console wl) = started (console ?w2) @ take k pending"
    "rl = Inr True \<longrightarrow> k = length pending"
    "rl = Inr False \<longrightarrow> 0 < k \<and> console wl \<noteq> [] \<and>
       last (console wl) = HaltingAtVersion (fst (pending ! (k - 1))) \<and>
       (\<exists>err. MigrationError (fst (pending ! (k - 1))) err \<in> set (console wl))"
    by blast
  show ?thesis
  proof (intro exI [of _ k] conjI impI)
    show "k \<le> length pending" by (rule k(1))
    show "started (console w') = started (console w) @ take k pending"
      using k(2) s2 by (simp add: w' started_append)
    show "k = length pending" if "r = Inr True" using that k(3) r by simp
    show "0 < k" if "r = Inr False" using that k(4) r by simp
    show "console w' \<noteq> []" if "r = Inr False" using that k(4) r w' by simp
    show "last (console w') = HaltingAtVersion (fst (pending ! (k - 1)))"
      if "r = Inr False" using that k(4) r w' by simp
    show "\<exists>err. MigrationError (fst (pending ! (k - 1))) err \<in> set (console w')"
      if "r = Inr False" using that k(4) r w' by simp
  qed
qed

section \<open>Fail-fast migration runs\<close>




section \<open>Pending migrations\<close>


lemma versions_of_accepted:
  "fst ` set (accepted cur fs) \<subseteq> {v. \<exists>f\<in>set fs. file_version f = Inr v}"
  by (auto simp: set_accepted)

lemma distinct_accepted:
  assumes "distinct fs"
    and "\<And>f g v. f \<in> set fs \<Longrightarrow> g \<in> set fs \<Longrightarrow> file_version f = Inr v \<Longrightarrow>
           file_version g = Inr v \<Longrightarrow> f = g"
  shows "distinct (map fst (accepted cur fs))"
  using assms
proof (induction fs)
  case Nil
  then show ?case by (simp add: accepted_def)
next
  case (Cons f fs)
  have ih: "distinct (map fst (accepted cur fs))"
    using Cons.prems by (intro Cons.IH) auto
  have split: "accepted cur (f # fs) =
      (case file_version f of Inr v \<Rightarrow> if v > cur then [(v, f)] else [] | Inl _ \<Rightarrow> [])
      @ accepted cur fs"
    by (simp add: accepted_def)
  show ?case
  proof (cases "file_version f")
    case (Inl e)
    with ih split show ?thesis by simp
  next
    case (Inr v)
    have "v \<notin> fst ` set (accepted cur fs)"
    proof
      assume "v \<in> fst ` set (accepted cur fs)"
      with versions_of_accepted [of cur fs] obtain g where
        "g \<in> set fs" "file_version g = Inr v" by auto
      with Cons.prems(2) [of f g v] Inr have "f = g" by simp
      with \<open>g \<in> set fs\<close> Cons.prems(1) show False by simp
    qed
    with ih split Inr show ?thesis by simp
  qed
qed

lemma distinct_glob_sql:
  "migrations_dir d = Some entries \<Longrightarrow> distinct (map fst entries) \<Longrightarrow> distinct (glob_sql d)"
  by (simp add: glob_sql_def)

text \<open>
  Claim C7, as the code has it. The versions of the pending migrations are sorted
  ascending, and a run starts migrations in the order of that list. When no two known
  files share a version, the versions are unique and strictly increasing.
\<close>

theorem pending_versions_increasing:
  assumes cv: "get_current_version sh w = (Inr cur, w1)"
    and dir: "migrations_dir (disk w1) = Some entries"
    and names: "distinct (map fst entries)"
  shows "\<exists>pending w'.
     get_pending_migrations sh w = (Inr pending, w') \<and>
     sorted (map fst pending) \<and>
     ((\<forall>f g v. f \<in> set (glob_sql (disk w1)) \<longrightarrow> g \<in> set (glob_sql (disk w1)) \<longrightarrow>
          file_version f = Inr v \<longrightarrow> file_version g = Inr v \<longrightarrow> f = g) \<longrightarrow>
        distinct (map fst pending) \<and> sorted_wrt (<) (map fst pending)) \<and>
     (\<forall>r w2. migrate sh w = (r, w2) \<longrightarrow>
        (\<exists>k\<le>length pending. started (console w2) = started (console w) @ take k pending))"
proof -
  let ?names = "sort (glob_sql (disk w1))"
  let ?pending = "sort_key fst (accepted cur ?names)"
  note eq = get_pending_migrations_eq [OF cv dir]
  have c1: "sorted (map fst ?pending)" by (rule sorted_sort_key)
  have c2: "distinct (map fst ?pending) \<and> sorted_wrt (<) (map fst ?pending)"
    if inj: "\<forall>f g v. f \<in> set (glob_sql (disk w1)) \<longrightarrow> g \<in> set (glob_sql (disk w1)) \<longrightarrow>
          file_version f = Inr v \<longrightarrow> file_version g = Inr v \<longrightarrow> f = g"
  proof -
    have "distinct ?names" using distinct_glob_sql [OF dir names] by simp
    then have "distinct (map fst (accepted cur ?names))"
      using inj by (intro distinct_accepted) auto
    moreover have "mset (map fst ?pending) = mset (map fst (accepted cur ?names))"
      by simp
    ultimately have "distinct (map fst ?pending)"
      by (metis mset_eq_imp_distinct_iff)
    with c1 show ?thesis by (simp add: strict_sorted_iff)
  qed
  have c3: "\<exists>k\<le>length ?pending. started (console w2) = started (console w) @ take k ?pending"
    if "migrate sh w = (r, w2)" for r w2
    using migrate_started [OF eq that] by blast
  from eq c1 c2 c3 show ?thesis by blast
qed


lemma sample_current_version:
  "get_current_version (sample_shell ''0'' bad) (with_migrations names)
     = (Inr 0, with_migrations names)"
proof -
  have b: "get_cockroach_binary (sample_shell ''0'' bad) (with_migrations names)
             = (Inr [], with_migrations names)"
    by (simp add: get_cockroach_binary_def run_command_def sample_shell_def with_migrations_def
          empty_disk_def cockroach_paths_def strip_def)
  have l: "load_config (with_migrations names) = (Inr default_config, with_migrations names)"
    by (simp add: load_config_def with_migrations_def empty_disk_def)
  have g: "py_get default_config ''sql_port'' (JInt 26257) = Inr (JInt 26257)"
    "py_get default_config ''database_name'' (JStr ''astranetdb'') = Inr (JStr ''defaultdb'')"
    by (simp_all add: default_config_def default_fields_def)
  have r: "run_command (sample_shell ''0'' bad) (SqlMaxVersion [] (JInt 26257) (JStr ''defaultdb''))
             (disk (with_migrations names))
           = (Inr (0, ''coalesce'' @ [CHR 0x0A] @ ''0'' @ [CHR 0x0A], []),
              disk (with_migrations names))"
    by (simp add: run_command_def sample_shell_def)
  have p: "parse_version 0 (''coalesce'' @ [CHR 0x0A] @ ''0'' @ [CHR 0x0A]) = Inr 0"
    by code_simp
  show ?thesis
    by (simp only: get_current_version_def b l g r p prod.case sum.case) simp
qed

lemma sample_migrations_dir:
  "migrations_dir (disk (with_migrations names))
     = Some (map (\<lambda>n. (n, SqlText ''SELECT 1;'')) names)"
  by (simp add: with_migrations_def empty_disk_def)



text \<open>Two files of version 1: both are pending, and a run starts both.\<close>

theorem same_version_twice_counterexample:
  "fst (get_pending_migrations (sample_shell ''0'' 0)
          (with_migrations [''001_b.sql'', ''001_a.sql'']))
     = Inr [(1, ''001_a.sql''), (1, ''001_b.sql'')] \<and>
   \<not> distinct (map fst [(1 :: int, ''001_a.sql''), (1, ''001_b.sql'')]) \<and>
   started (console (snd (migrate (sample_shell ''0'' 0)
          (with_migrations [''001_b.sql'', ''001_a.sql'']))))
     = [(1, ''001_a.sql''), (1, ''001_b.sql'')]"
  by code_simp

theorem pending_versions_increasing_witness:
  "fst (get_pending_migrations (sample_shell ''0'' 0)
          (with_migrations [''002_b.sql'', ''001_a.sql'']))
     = Inr [(1, ''001_a.sql''), (2, ''002_b.sql'')] \<and>
   sorted_wrt (<) (map fst [(1 :: int, ''001_a.sql''), (2, ''002_b.sql'')]) \<and>
   (\<exists>k. started (console (snd (migrate (sample_shell ''0'' 0)
          (with_migrations [''002_b.sql'', ''001_a.sql'']))))
        = take k [(1, ''001_a.sql''), (2, ''002_b.sql'')])"
proof -
  let ?sh = "sample_shell ''0'' 0"
  let ?w = "with_migrations [''002_b.sql'', ''001_a.sql'']"
  let ?pending = "[(1 :: int, ''001_a.sql''), (2, ''002_b.sql'')]"
  have d: "distinct (map fst (map (\<lambda>n. (n, SqlText ''SELECT 1;'')) [''002_b.sql'', ''001_a.sql'']))"
    by simp
  have g: "glob_sql (disk ?w) = [''002_b.sql'', ''001_a.sql'']" by code_simp
  have v: "file_version ''002_b.sql'' = Inr 2" "file_version ''001_a.sql'' = Inr 1"
    by code_simp+
  have inj: "\<forall>f g v. f \<in> set (glob_sql (disk ?w)) \<longrightarrow> g \<in> set (glob_sql (disk ?w)) \<longrightarrow>
          file_version f = Inr v \<longrightarrow> file_version g = Inr v \<longrightarrow> f = g"
    unfolding g using v by auto
  have p: "fst (get_pending_migrations ?sh ?w) = Inr ?pending" by code_simp
  have s0: "started (console ?w) = []" by (simp add: with_migrations_def)
  from pending_versions_increasing [OF sample_current_version sample_migrations_dir d, of 0]
  obtain pending w' where gp: "get_pending_migrations ?sh ?w = (Inr pending, w')"
    and st: "(\<forall>f g v. f \<in> set (glob_sql (disk ?w)) \<longrightarrow> g \<in> set (glob_sql (disk ?w)) \<longrightarrow>
          file_version f = Inr v \<longrightarrow> file_version g = Inr v \<longrightarrow> f = g) \<longrightarrow>
        distinct (map fst pending) \<and> sorted_wrt (<) (map fst pending)"
    and run: "\<forall>r w2. migrate ?sh ?w = (r, w2) \<longrightarrow>
        (\<exists>k\<le>length pending. started (console w2) = started (console ?w) @ take k pending)"
    by blast
  from gp p have pe: "pending = ?pending" by simp
  from st inj have sw: "sorted_wrt (<) (map fst pending)" by blast
  have "migrate ?sh ?w = (fst (migrate ?sh ?w), snd (migrate ?sh ?w))" by simp
  with run have "\<exists>k\<le>length pending.
      started (console (snd (migrate ?sh ?w))) = started (console ?w) @ take k pending"
    by blast
  then have "\<exists>k. started (console (snd (migrate ?sh ?w))) = take k ?pending"
    unfolding pe s0 by auto
  with p sw show ?thesis unfolding pe by simp
qed

section \<open>The staging file of a migration\<close>

text \<open>
  Claim C6. Once the binary, the configuration and the migration file have been read,
  \<^verbatim>\<open>apply_migration\<close> runs the SQL command on a disk where the staging file of this
  version holds the database name and the migration's statements; whatever the command
  does (exit code 0, another exit code, an exception that \<^verbatim>\<open>run_command\<close> turns into
  exit code 1, or an interrupt that propagates), \<^verbatim>\<open>apply_migration\<close> returns or raises
  with the disk the command left, less the staging file of this version.
\<close>

theorem apply_migration_cleans_staging:
  assumes b: "get_cockroach_binary sh w = (Inr cockroach, w1)"
    and l: "load_config w1 = (Inr config, w2)"
    and p: "py_get config ''sql_port'' (JInt 26257) = Inr sql_port"
    and n: "py_get config ''database_name'' (JStr ''astranetdb'') = Inr db_name"
    and t: "read_migration (disk w2) migration_file = Inr sql_content"
  shows "\<exists>out d.
     sh (SqlRunStaged cockroach sql_port version)
        ((disk w2)\<lparr>staging := (staging (disk w2))(version \<mapsto> (db_name, sql_content))\<rparr>)
       = (out, d) \<and>
     fst (apply_migration sh version migration_file w) =
       (case out of
          Exited rc _ _ \<Rightarrow> Inr (rc = 0)
        | Raised e _ \<Rightarrow> if is_Exception e then Inr False else Inl e) \<and>
     disk (snd (apply_migration sh version migration_file w))
       = d\<lparr>staging := (staging d)(version := None)\<rparr> \<and>
     staging (disk (snd (apply_migration sh version migration_file w))) version = None"
proof -
  let ?d4 = "(disk w2)\<lparr>staging := (staging (disk w2))(version \<mapsto> (db_name, sql_content))\<rparr>"
  obtain out d where run: "sh (SqlRunStaged cockroach sql_port version) ?d4 = (out, d)"
    by (cases "sh (SqlRunStaged cockroach sql_port version) ?d4")
  have t': "read_migration (disk (say (ApplyingMigration version migration_file) w2)) migration_file
              = Inr sql_content"
    using t by (simp add: say_def)
  have d3: "disk (say (ApplyingMigration version migration_file) w2) = disk w2"
    by (simp add: say_def)
  have res: "fst (apply_migration sh version migration_file w) =
       (case out of
          Exited rc _ _ \<Rightarrow> Inr (rc = 0)
        | Raised e _ \<Rightarrow> if is_Exception e then Inr False else Inl e)"
    by (cases out)
       (simp_all add: apply_migration_def b l p n t d3 Let_def run_command_def run)
  have gone: "staging (disk (snd (apply_migration sh version migration_file w))) version = None"
    by (cases out)
       (simp_all add: apply_migration_def b l p n t d3 Let_def run_command_def run
          cleanup_staging_gone)
  have after: "disk (snd (apply_migration sh version migration_file w))
       = d\<lparr>staging := (staging d)(version := None)\<rparr>"
    by (cases out)
       (simp_all add: apply_migration_def b l p n t d3 Let_def run_command_def run
          disk_cleanup_staging say_def)
  from run res gone after show ?thesis by blast
qed


theorem apply_migration_cleans_staging_witness:
  "fst (apply_migration (sample_shell ''0'' 0) 1 ''001_a.sql'' (with_migrations [''001_a.sql'']))
     = Inr True \<and>
   staging (disk (snd (apply_migration (sample_shell ''0'' 0) 1 ''001_a.sql''
     (with_migrations [''001_a.sql''])))) 1 = None \<and>
   fst (apply_migration (sample_shell ''0'' 1) 1 ''001_a.sql'' (with_migrations [''001_a.sql'']))
     = Inr False \<and>
   staging (disk (snd (apply_migration (sample_shell ''0'' 1) 1 ''001_a.sql''
     (with_migrations [''001_a.sql''])))) 1 = None \<and>
   fst (apply_migration interrupted_shell 1 ''001_a.sql'' (with_migrations [''001_a.sql'']))
     = Inl KeyboardInterrupt \<and>
   staging (disk (snd (apply_migration interrupted_shell 1 ''001_a.sql''
     (with_migrations [''001_a.sql''])))) 1 = None"
proof -
  let ?w = "with_migrations [''001_a.sql'']"
  have b1: "get_cockroach_binary (sample_shell ''0'' bad) ?w = (Inr [], ?w)" for bad
    by (simp add: get_cockroach_binary_def run_command_def sample_shell_def with_migrations_def
          empty_disk_def cockroach_paths_def strip_def)
  have b2: "get_cockroach_binary interrupted_shell ?w = (Inr [], ?w)"
    by (simp add: get_cockroach_binary_def run_command_def interrupted_shell_def
          with_migrations_def empty_disk_def cockroach_paths_def strip_def)
  have l: "load_config ?w = (Inr default_config, ?w)"
    by (simp add: load_config_def with_migrations_def empty_disk_def)
  have p: "py_get default_config ''sql_port'' (JInt 26257) = Inr (JInt 26257)"
    and n: "py_get default_config ''database_name'' (JStr ''astranetdb'') = Inr (JStr ''defaultdb'')"
    by (simp_all add: default_config_def default_fields_def)
  have t: "read_migration (disk ?w) ''001_a.sql'' = Inr (SqlText ''SELECT 1;'')"
    by (simp add: read_migration_def with_migrations_def empty_disk_def)
  have r1: "fst (apply_migration (sample_shell ''0'' 0) 1 ''001_a.sql'' ?w) = Inr True"
    by code_simp
  have r2: "fst (apply_migration (sample_shell ''0'' 1) 1 ''001_a.sql'' ?w) = Inr False"
    by code_simp
  have r3: "fst (apply_migration interrupted_shell 1 ''001_a.sql'' ?w) = Inl KeyboardInterrupt"
    by code_simp
  from apply_migration_cleans_staging [OF b1 [of 0] l p n t, where version = 1]
  have g1: "staging (disk (snd (apply_migration (sample_shell ''0'' 0) 1 ''001_a.sql'' ?w))) 1 = None"
    by (elim exE conjE)
  from apply_migration_cleans_staging [OF b1 [of 1] l p n t, where version = 1]
  have g2: "staging (disk (snd (apply_migration (sample_shell ''0'' 1) 1 ''001_a.sql'' ?w))) 1 = None"
    by (elim exE conjE)
  from apply_migration_cleans_staging [OF b2 l p n t, where version = 1]
  have g3: "staging (disk (snd (apply_migration interrupted_shell 1 ''001_a.sql'' ?w))) 1 = None"
    by (elim exE conjE)
  show ?thesis by (intro conjI r1 r2 r3 g1 g2 g3)
qed

section \<open>Creating a migration\<close>

lemma fold_max_Max: "fold max xs (x :: int) = Max (set (x # xs))"
  by (rule Max.set_eq_fold [symmetric])

lemma digit_versions_total:
  "\<exists>vs. digit_versions fs = Inr vs \<and>
        set vs = {u. \<exists>f\<in>set fs. \<exists>p. version_prefix f = Inr p \<and> isdigit p \<and>
                     file_version f = Inr u}"
proof (induction fs)
  case Nil
  then show ?case by simp
next
  case (Cons f fs)
  then obtain vs where vs: "digit_versions fs = Inr vs"
    "set vs = {u. \<exists>f\<in>set fs. \<exists>p. version_prefix f = Inr p \<and> isdigit p \<and>
                     file_version f = Inr u}" by blast
  obtain p where p: "version_prefix f = Inr p" using version_prefix_total by blast
  show ?case
  proof (cases "isdigit p")
    case True
    then have i: "py_int p = Inr (int (digits_val p))" by (rule py_int_isdigit)
    then have "file_version f = Inr (int (digits_val p))" by (simp add: file_version_def p)
    with True p i vs show ?thesis by (auto simp: file_version_def)
  next
    case False
    with p vs show ?thesis by auto
  qed
qed

text \<open>
  Claim C4, as the code has it. Whenever \<^verbatim>\<open>create_migration\<close> returns a path (for a
  name without \<^verbatim>\<open>/\<close>, so that the path is a file of the migrations directory), the
  path is \<^verbatim>\<open>f"{v:03d}_{name}.sql"\<close> and parses back to the version \<open>v\<close>; \<open>v\<close> is
  \<open>cur + 1\<close> when the directory has no \<^verbatim>\<open>*.sql\<close> file, and else the maximum of
  \<open>cur + 1\<close> and one more than the highest version among the files whose prefix is all
  digits; \<open>v\<close> is greater than the current version and than the version of every existing
  file whose prefix is all digits.
\<close>

theorem create_migration_version:
  assumes cv: "get_current_version sh w = (Inr cur, w1)"
    and cm: "create_migration name sh w = (Inr path, w')"
    and nm: "CHR ''/'' \<notin> set name"
  shows "\<exists>v. path = fmt03_int v @ ''_'' @ name @ ''.sql'' \<and>
             file_version path = Inr v \<and> cur < v \<and>
             (glob_sql (disk w1) = [] \<longrightarrow> v = cur + 1) \<and>
             (glob_sql (disk w1) \<noteq> [] \<longrightarrow>
                (\<exists>vs. digit_versions (glob_sql (disk w1)) = Inr vs \<and> vs \<noteq> [] \<and>
                      v = max (cur + 1) (Max (set vs) + 1))) \<and>
             (\<forall>f p. f \<in> set (glob_sql (disk w1)) \<longrightarrow> version_prefix f = Inr p \<longrightarrow>
                isdigit p \<longrightarrow> (\<exists>u. file_version f = Inr u \<and> u < v))"
proof -
  let ?files = "glob_sql (disk w1)"
  from cm cv obtain v where nv: "next_version cur ?files = Inr v"
    and path: "path = fmt03_int v @ ''_'' @ name @ ''.sql''"
    by (auto simp: create_migration_def Let_def split: sum.splits option.splits)
  obtain vs where vs: "digit_versions ?files = Inr vs"
    "set vs = {u. \<exists>f\<in>set ?files. \<exists>p. version_prefix f = Inr p \<and> isdigit p \<and>
                     file_version f = Inr u}"
    using digit_versions_total by blast
  have cur0: "0 \<le> cur" by (rule get_current_version_nonneg [OF cv])
  have empty: "v = cur + 1" if "?files = []"
    using nv that by (simp add: next_version_def)
  have nonempty: "vs \<noteq> [] \<and> v = max (cur + 1) (Max (set vs) + 1)" if "?files \<noteq> []"
  proof (cases vs)
    case Nil
    with nv that vs(1) show ?thesis by (simp add: next_version_def)
  next
    case (Cons x xs)
    with nv that vs(1) show ?thesis by (simp add: next_version_def fold_max_Max)
  qed
  have gt: "cur < v" using empty nonempty by (cases "?files = []") auto
  then have "0 \<le> v" using cur0 by simp
  then have fv: "file_version path = Inr v" unfolding path by (rule file_version_formatted)
  have below: "\<exists>u. file_version f = Inr u \<and> u < v"
    if "f \<in> set ?files" "version_prefix f = Inr p" "isdigit p" for f p
  proof -
    have "py_int p = Inr (int (digits_val p))" using that(3) by (rule py_int_isdigit)
    then have u: "file_version f = Inr (int (digits_val p))"
      by (simp add: file_version_def that(2))
    with that have "int (digits_val p) \<in> set vs" unfolding vs(2) by blast
    then have "int (digits_val p) \<le> Max (set vs)" by simp
    moreover have "?files \<noteq> []" using that(1) by auto
    then have "v = max (cur + 1) (Max (set vs) + 1)"
      using nonempty by simp
    ultimately show ?thesis using u by simp
  qed
  from path fv gt empty nonempty vs(1) below show ?thesis by blast
qed

text \<open>The prefix \<^verbatim>\<open>+2\<close> is not all digits, so \<^verbatim>\<open>create_migration\<close> does not count the
  file; \<^verbatim>\<open>int\<close> reads it as version 2, the version of the new file.\<close>

theorem create_migration_signed_prefix_counterexample:
  "fst (create_migration ''x'' (sample_shell ''0'' 0)
          (with_migrations [''001_a.sql'', ''+2_b.sql''])) = Inr ''002_x.sql'' \<and>
   file_version ''002_x.sql'' = Inr 2 \<and> file_version ''+2_b.sql'' = Inr 2"
  by code_simp

text \<open>With \<^verbatim>\<open>*.sql\<close> files of which none has an all-digit prefix, \<^verbatim>\<open>max([])\<close>
  raises.\<close>

lemma create_migration_no_numbered_file:
  "fst (create_migration ''x'' (sample_shell ''0'' 0) (with_migrations [''bad_name.sql'']))
     = Inl ValueError"
  by code_simp

theorem create_migration_version_witness:
  "CHR ''/'' \<notin> set ''users'' \<and>
   fst (create_migration ''users'' (sample_shell ''1'' 0)
          (with_migrations [''003_c.sql'', ''001_a.sql''])) = Inr ''004_users.sql'' \<and>
   (\<exists>v. file_version ''004_users.sql'' = Inr v \<and> 1 < v \<and>
        (\<exists>u. file_version ''003_c.sql'' = Inr u \<and> u < v))"
proof -
  let ?sh = "sample_shell ''1'' 0"
  let ?w = "with_migrations [''003_c.sql'', ''001_a.sql'']"
  let ?w1 = "snd (get_current_version ?sh ?w)"
  have nm: "CHR ''/'' \<notin> set ''users''" by simp
  have c: "fst (create_migration ''users'' ?sh ?w) = Inr ''004_users.sql''" by code_simp
  then have cm: "create_migration ''users'' ?sh ?w
      = (Inr ''004_users.sql'', snd (create_migration ''users'' ?sh ?w))"
    by (simp add: prod_eq_iff)
  have "fst (get_current_version ?sh ?w) = Inr 1" by code_simp
  then have cv: "get_current_version ?sh ?w = (Inr 1, ?w1)"
    by (simp add: prod_eq_iff)
  have f: "''003_c.sql'' \<in> set (glob_sql (disk ?w1))" by code_simp
  have vp: "version_prefix ''003_c.sql'' = Inr ''003''" by code_simp
  have dg: "isdigit ''003''" by code_simp
  from create_migration_version [OF cv cm nm] obtain v where
    v: "file_version ''004_users.sql'' = Inr v" "1 < v"
      "\<forall>f p. f \<in> set (glob_sql (disk ?w1)) \<longrightarrow> version_prefix f = Inr p \<longrightarrow>
                isdigit p \<longrightarrow> (\<exists>u. file_version f = Inr u \<and> u < v)"
    by (elim exE conjE)
  from v(3) [rule_format, OF f vp dg] obtain u where
    u: "file_version ''003_c.sql'' = Inr u" "u < v"
    by (elim exE conjE)
  have "\<exists>v. file_version ''004_users.sql'' = Inr v \<and> 1 < v \<and>
        (\<exists>u. file_version ''003_c.sql'' = Inr u \<and> u < v)"
    using v(1,2) u by blast
  with nm c show ?thesis by (intro conjI)
qed

end
